theory Spec2Isabelle
  imports Main "HOL-Library.Code_Target_Numeral"
begin

section \<open>Python values, exceptions and dictionaries\<close>

text \<open>
  The monitor is written in Python. Strings are modelled as \<open>string\<close>, one \<open>char\<close> per
  code point (code points below 256). A value whose type the code tests at run time
  (\<open>isinstance\<close>, truthiness) is a \<open>pyval\<close>; \<open>PObj\<close> is an object of some other class,
  given by its attributes. Exceptions are values: a class and the message \<open>str(e)\<close>.
  Only subclasses of \<open>Exception\<close> are modelled, the ones \<open>except Exception\<close> catches.
\<close>

datatype pyval =
    PNone
  | PBool bool
  | PInt int
  | PStr string
  | PObj "(string \<times> pyval) list"

fun truthy :: "pyval \<Rightarrow> bool" where
  "truthy PNone = False"
| "truthy (PBool b) = b"
| "truthy (PInt i) = (i \<noteq> 0)"
| "truthy (PStr s) = (s \<noteq> [])"
| "truthy (PObj attrs) = True"

fun is_str :: "pyval \<Rightarrow> bool" where
  "is_str (PStr s) = True"
| "is_str v = False"

datatype exn_class =
    ValueError
  | OSError
  | FileNotFoundError
  | PermissionError
  | TimeoutExpired
  | CalledProcessError
  | AttributeError
  | OtherException

datatype exn = Exn exn_class string

fun exn_str :: "exn \<Rightarrow> string" where
  "exn_str (Exn c msg) = msg"

text \<open>
  A \<open>dict\<close> keeps its keys in insertion order; assigning to a key that is present keeps
  the key's position and replaces its value.
\<close>

type_synonym 'v pydict = "(string \<times> 'v) list"

fun dict_set :: "'v pydict \<Rightarrow> string \<Rightarrow> 'v \<Rightarrow> 'v pydict" where
  "dict_set [] k v = [(k, v)]"
| "dict_set ((k', v') # d) k v = (if k' = k then (k, v) # d else (k', v') # dict_set d k v)"

definition dict_get :: "'v pydict \<Rightarrow> string \<Rightarrow> 'v option" where
  "dict_get d k = map_of d k"

definition dict_keys :: "'v pydict \<Rightarrow> string list" where
  "dict_keys d = map fst d"

section \<open>The standard library: str.replace, datetime\<close>

text \<open>\<open>s.replace(old, new)\<close> for a one-character \<open>old\<close>: every occurrence is replaced.\<close>

definition replace :: "char \<Rightarrow> string \<Rightarrow> string \<Rightarrow> string" where
  "replace old new s = concat (map (\<lambda>c. if c = old then new else [c]) s)"

text \<open>
  A \<open>datetime\<close> value: the calendar fields and \<open>tzinfo\<close>, the UTC offset in microseconds
  (\<open>None\<close> for a naive value). The constructor checks the ranges of the fields.
\<close>

record datetime =
  year :: nat
  month :: nat
  day :: nat
  hour :: nat
  minute :: nat
  second :: nat
  microsecond :: nat
  tzinfo :: "int option"

definition is_leap :: "nat \<Rightarrow> bool" where
  "is_leap y = (y mod 4 = 0 \<and> (y mod 100 \<noteq> 0 \<or> y mod 400 = 0))"

definition days_in_month :: "nat \<Rightarrow> nat \<Rightarrow> nat" where
  "days_in_month y m =
     (if m = 2 then (if is_leap y then 29 else 28)
      else if m = 4 \<or> m = 6 \<or> m = 9 \<or> m = 11 then 30 else 31)"

definition check_date_fields :: "nat \<Rightarrow> nat \<Rightarrow> nat \<Rightarrow> bool" where
  "check_date_fields y m d =
     (1 \<le> y \<and> y \<le> 9999 \<and> 1 \<le> m \<and> m \<le> 12 \<and> 1 \<le> d \<and> d \<le> days_in_month y m)"

definition check_time_fields :: "nat \<Rightarrow> nat \<Rightarrow> nat \<Rightarrow> nat \<Rightarrow> bool" where
  "check_time_fields h mi s us = (h \<le> 23 \<and> mi \<le> 59 \<and> s \<le> 59 \<and> us \<le> 999999)"

definition check_datetime :: "datetime \<Rightarrow> bool" where
  "check_datetime dt =
     (check_date_fields (year dt) (month dt) (day dt)
      \<and> check_time_fields (hour dt) (minute dt) (second dt) (microsecond dt)
      \<and> (case tzinfo dt of None \<Rightarrow> True | Some off \<Rightarrow> \<bar>off\<bar> < 86400000000))"

text \<open>Decimal digits: \<open>dec\<close> prints a number, \<open>pad k\<close> is the format \<open>%0kd\<close>.\<close>

definition digit_char :: "nat \<Rightarrow> char" where
  "digit_char n = char_of (48 + n)"

definition is_digit :: "char \<Rightarrow> bool" where
  "is_digit c = (48 \<le> (of_char c :: nat) \<and> (of_char c :: nat) \<le> 57)"

definition digit_val :: "char \<Rightarrow> nat" where
  "digit_val c = of_char c - 48"

fun dec :: "nat \<Rightarrow> string" where
  "dec n = (if n < 10 then [digit_char n] else dec (n div 10) @ [digit_char (n mod 10)])"

declare dec.simps [simp del]

definition pad :: "nat \<Rightarrow> nat \<Rightarrow> string" where
  "pad k n = replicate (k - length (dec n)) (CHR ''0'') @ dec n"

text \<open>
  \<open>datetime.isoformat()\<close> of a naive value: \<open>YYYY-MM-DDTHH:MM:SS\<close>, followed by
  \<open>.ffffff\<close> when the microsecond is not zero.
\<close>

definition isoformat :: "datetime \<Rightarrow> string" where
  "isoformat dt =
     pad 4 (year dt) @ ''-'' @ pad 2 (month dt) @ ''-'' @ pad 2 (day dt) @ ''T''
     @ pad 2 (hour dt) @ '':'' @ pad 2 (minute dt) @ '':'' @ pad 2 (second dt)
     @ (if microsecond dt \<noteq> 0 then ''.'' @ pad 6 (microsecond dt) else [])"

text \<open>
  \<open>datetime.fromisoformat\<close> is library code, and the strings it accepts differ between
  the Python versions that setup.py admits. It is therefore a parameter of the model: a
  function from the string to the \<open>datetime\<close> it returns or the exception it raises.
  Theorems hold for every such function. The examples use the table below of answers
  that the library gives in every version from 3.8 on; for a string that is not in the
  table the table raises \<open>ValueError\<close>.
\<close>

type_synonym iso_parser = "string \<Rightarrow> exn + datetime"

definition fromisoformat_examples :: iso_parser where
  "fromisoformat_examples date_string =
     (if date_string = ''2024-01-15'' then
        Inr \<lparr>year = 2024, month = 1, day = 15, hour = 0, minute = 0, second = 0,
             microsecond = 0, tzinfo = None\<rparr>
      else if date_string = ''2024-01-15T10:30:00+00:00'' then
        Inr \<lparr>year = 2024, month = 1, day = 15, hour = 10, minute = 30, second = 0,
             microsecond = 0, tzinfo = Some 0\<rparr>
      else if date_string = ''2024-01-15T10:30:04+00:00'' then
        Inr \<lparr>year = 2024, month = 1, day = 15, hour = 10, minute = 30, second = 4,
             microsecond = 0, tzinfo = Some 0\<rparr>
      else if date_string = ''2024-01-15T10:30:06+00:00'' then
        Inr \<lparr>year = 2024, month = 1, day = 15, hour = 10, minute = 30, second = 6,
             microsecond = 0, tzinfo = Some 0\<rparr>
      else if date_string = ''2024-01-15T10:30:07-05:00'' then
        Inr \<lparr>year = 2024, month = 1, day = 15, hour = 10, minute = 30, second = 7,
             microsecond = 0, tzinfo = Some (- 18000000000)\<rparr>
      else if date_string = ''2024-01-15T10:30-07:05:00'' then
        Inr \<lparr>year = 2024, month = 1, day = 15, hour = 10, minute = 30, second = 0,
             microsecond = 0, tzinfo = Some (- 25500000000)\<rparr>
      else Inl (Exn ValueError (''Invalid isoformat string: '' @ date_string)))"

section \<open>models.py: ServiceStatus\<close>

text \<open>
  The dataclass has four fields. \<open>__post_init__\<close> calls \<open>_validate\<close>, so the constructor
  either raises or returns the record; after validation every field is a string.
  \<open>validate\<close> returns the exception that \<open>_validate\<close> raises, if any: the handler around
  the parser catches \<open>ValueError\<close> only.
\<close>

record ServiceStatus =
  service_name :: string
  service_status :: string
  host_name :: string
  timestamp :: string

fun the_str :: "pyval \<Rightarrow> string" where
  "the_str (PStr s) = s"
| "the_str v = []"

fun is_ValueError :: "exn \<Rightarrow> bool" where
  "is_ValueError (Exn ValueError msg) = True"
| "is_ValueError e = False"

definition validate :: "iso_parser \<Rightarrow> pyval \<Rightarrow> pyval \<Rightarrow> pyval \<Rightarrow> pyval \<Rightarrow> exn option" where
  "validate fromisoformat name status host ts =
     (if \<not> truthy name \<or> \<not> is_str name then
        Some (Exn ValueError ''service_name must be a non-empty string'')
      else if status \<notin> set [PStr ''UP'', PStr ''DOWN''] then
        Some (Exn ValueError (''service_status must be either 'UP' or 'DOWN'' @ [CHR 0x27]))
      else if \<not> truthy host \<or> \<not> is_str host then
        Some (Exn ValueError ''host_name must be a non-empty string'')
      else if \<not> truthy ts \<or> \<not> is_str ts then
        Some (Exn ValueError ''timestamp must be a non-empty string'')
      else (case fromisoformat (replace (CHR ''Z'') ''+00:00'' (the_str ts)) of
              Inl e \<Rightarrow>
                (if is_ValueError e
                 then Some (Exn ValueError ''timestamp must be in ISO 8601 format'')
                 else Some e)
            | Inr dt \<Rightarrow> None))"

definition new_ServiceStatus ::
  "iso_parser \<Rightarrow> pyval \<Rightarrow> pyval \<Rightarrow> pyval \<Rightarrow> pyval \<Rightarrow> exn + ServiceStatus" where
  "new_ServiceStatus fromisoformat name status host ts =
     (case validate fromisoformat name status host ts of
        Some e \<Rightarrow> Inl e
      | None \<Rightarrow> Inr \<lparr>service_name = the_str name, service_status = the_str status,
                       host_name = the_str host, timestamp = the_str ts\<rparr>)"

definition to_dict :: "ServiceStatus \<Rightarrow> string pydict" where
  "to_dict r = [(''service_name'', service_name r), (''service_status'', service_status r),
                (''host_name'', host_name r), (''timestamp'', timestamp r)]"

text \<open>
  The specification's reading of a valid timestamp is a full date-time, a date together
  with a time of day. As far as the shape goes that is at least the calendar date
  \<open>YYYY-MM-DD\<close>, one separator character and a time of day that starts \<open>HH:MM\<close>; seconds,
  a fraction, an offset or Z may follow.
\<close>

definition spec_full_date_time :: "string \<Rightarrow> bool" where
  "spec_full_date_time ts =
     (16 \<le> length ts
      \<and> list_all is_digit (take 4 ts) \<and> ts ! 4 = CHR ''-''
      \<and> list_all is_digit (take 2 (drop 5 ts)) \<and> ts ! 7 = CHR ''-''
      \<and> list_all is_digit (take 2 (drop 8 ts))
      \<and> list_all is_digit (take 2 (drop 11 ts)) \<and> ts ! 13 = CHR '':''
      \<and> list_all is_digit (take 2 (drop 14 ts)))"

section \<open>service\_checker.py: ServiceChecker\<close>

text \<open>
  \<open>str.strip()\<close> removes the characters for which \<open>str.isspace\<close> holds from both ends:
  tab to carriage return, the separators \<open>0x1C\<close> to \<open>0x1F\<close>, the space, \<open>0x85\<close> and \<open>0xA0\<close>.
\<close>

definition py_isspace :: "char \<Rightarrow> bool" where
  "py_isspace c = (let n = (of_char c :: nat) in
     (9 \<le> n \<and> n \<le> 13) \<or> (28 \<le> n \<and> n \<le> 32) \<or> n = 133 \<or> n = 160)"

definition strip :: "string \<Rightarrow> string" where
  "strip s = rev (dropWhile py_isspace (rev (dropWhile py_isspace s)))"

text \<open>
  \<open>subprocess.run(['systemctl', 'is-active', name], capture_output=True, text=True,
  timeout=10)\<close> either raises or completes with a return code and the captured output.
  The outcome is a parameter: \<open>run argv\<close>.
\<close>

type_synonym run_result = "exn + (int \<times> string)"

fun on_run_error :: "exn \<Rightarrow> string" where
  "on_run_error (Exn TimeoutExpired msg) = ''DOWN''"
| "on_run_error (Exn CalledProcessError msg) = ''DOWN''"
| "on_run_error (Exn FileNotFoundError msg) = ''DOWN''"
| "on_run_error (Exn c msg) = ''DOWN''"

fun check_service_status :: "(string list \<Rightarrow> run_result) \<Rightarrow> pyval \<Rightarrow> exn + string" where
  "check_service_status run (PStr name) =
     (if name = [] then Inl (Exn ValueError ''service_name must be a non-empty string'')
      else (case run [''systemctl'', ''is-active'', name] of
              Inr (returncode, stdout) \<Rightarrow>
                (if returncode = 0 \<and> strip stdout = ''active'' then Inr ''UP'' else Inr ''DOWN'')
            | Inl e \<Rightarrow> Inr (on_run_error e)))"
| "check_service_status run v = Inl (Exn ValueError ''service_name must be a non-empty string'')"

text \<open>\<open>datetime.utcnow().isoformat() + 'Z'\<close>, for the clock reading \<open>utcnow\<close>.\<close>

definition get_current_timestamp :: "datetime \<Rightarrow> string" where
  "get_current_timestamp utcnow = isoformat utcnow @ ''Z''"

section \<open>app\_monitor.py: ApplicationMonitor\<close>

definition REQUIRED_SERVICES :: "string list" where
  "REQUIRED_SERVICES = [''httpd'', ''rabbitmq'', ''postgresql'']"

text \<open>The loop over the required services, with its two early returns.\<close>

fun required_loop :: "string list \<Rightarrow> string pydict \<Rightarrow> string" where
  "required_loop [] service_statuses = ''UP''"
| "required_loop (service # rest) service_statuses =
     (case dict_get service_statuses service of
        None \<Rightarrow> ''DOWN''
      | Some status \<Rightarrow> (if status \<noteq> ''UP'' then ''DOWN'' else required_loop rest service_statuses))"

definition determine_app_status :: "string pydict \<Rightarrow> string" where
  "determine_app_status service_statuses =
     (if service_statuses = [] then ''DOWN'' else required_loop REQUIRED_SERVICES service_statuses)"

text \<open>
  \<open>now\<close> is the outcome of \<open>self.service_checker.get_current_timestamp()\<close>, consulted
  only when no timestamp is given.
\<close>

definition generate_json_filename :: "(exn + string) \<Rightarrow> pyval \<Rightarrow> string option \<Rightarrow> exn + string" where
  "generate_json_filename now name ts =
     (if \<not> truthy name \<or> \<not> is_str name then
        Inl (Exn ValueError ''service_name must be a non-empty string'')
      else (case (case ts of None \<Rightarrow> now | Some t \<Rightarrow> Inr t) of
              Inl e \<Rightarrow> Inl e
            | Inr t \<Rightarrow>
                let safe_timestamp = replace (CHR ''.'') ''-'' (replace (CHR '':'') ''-'' t)
                in Inr (the_str name @ ''-status-'' @ safe_timestamp @ ''.json'')))"

section \<open>The service checker as a collaborator\<close>

text \<open>
  \<open>ApplicationMonitor\<close> receives its service checker through the constructor. A checker
  is given by what its three methods do at each call: the argument \<open>t\<close> counts the calls
  made to the checker so far, so a method may answer differently from call to call, and
  each of them may raise.
\<close>

record checker =
  chk_status :: "nat \<Rightarrow> string \<Rightarrow> exn + string"
  chk_hostname :: "nat \<Rightarrow> exn + string"
  chk_timestamp :: "nat \<Rightarrow> exn + string"

text \<open>
  The \<open>ServiceChecker\<close> class over an operating system: \<open>socket.gethostname()\<close> is read
  once by the constructor, \<open>subprocess.run\<close> and \<open>datetime.utcnow()\<close> at each call.
\<close>

record os_env =
  os_gethostname :: "exn + string"
  os_run :: "nat \<Rightarrow> string list \<Rightarrow> run_result"
  os_utcnow :: "nat \<Rightarrow> datetime"

definition get_hostname_init :: "os_env \<Rightarrow> string" where
  "get_hostname_init env = (case os_gethostname env of Inl e \<Rightarrow> ''unknown-host'' | Inr h \<Rightarrow> h)"

definition ServiceChecker :: "os_env \<Rightarrow> checker" where
  "ServiceChecker env =
     \<lparr>chk_status = (\<lambda>t name. check_service_status (os_run env t) (PStr name)),
      chk_hostname = (\<lambda>t. Inr (get_hostname_init env)),
      chk_timestamp = (\<lambda>t. Inr (get_current_timestamp (os_utcnow env t)))\<rparr>"

section \<open>app\_monitor.py: check\_service\_statuses\<close>

fun check_loop :: "checker \<Rightarrow> string list \<Rightarrow> string pydict \<Rightarrow> nat \<Rightarrow> string pydict \<times> nat" where
  "check_loop sc [] statuses t = (statuses, t)"
| "check_loop sc (service # rest) statuses t =
     (case chk_status sc t service of
        Inr status \<Rightarrow> check_loop sc rest (dict_set statuses service status) (Suc t)
      | Inl e \<Rightarrow> check_loop sc rest (dict_set statuses service ''DOWN'') (Suc t))"

text \<open>What one pass of the loop records for a name: the probe's answer, or DOWN if it raises.\<close>

definition probe_result :: "checker \<Rightarrow> nat \<Rightarrow> string \<Rightarrow> string" where
  "probe_result sc t name = (case chk_status sc t name of Inl e \<Rightarrow> ''DOWN'' | Inr s \<Rightarrow> s)"

definition check_service_statuses ::
  "checker \<Rightarrow> string list option \<Rightarrow> nat \<Rightarrow> (exn + string pydict) \<times> nat" where
  "check_service_statuses sc services t =
     (let services = (case services of None \<Rightarrow> REQUIRED_SERVICES | Some l \<Rightarrow> l)
      in if services = [] then (Inl (Exn ValueError ''services list cannot be empty''), t)
         else (case check_loop sc services [] t of (statuses, t') \<Rightarrow> (Inr statuses, t')))"

text \<open>
  An operating system for the examples: the host is \<open>web01\<close>, \<open>systemctl\<close> reports
  \<open>httpd\<close> active and \<open>postgresql\<close> inactive and is not found for any other command
  line, and the clock advances by one second at each reading.
\<close>

definition example_os :: os_env where
  "example_os =
     \<lparr>os_gethostname = Inr ''web01'',
      os_run = (\<lambda>t argv.
        if argv = [''systemctl'', ''is-active'', ''httpd''] then Inr (0, ''active'' @ [CHR 0x0A])
        else if argv = [''systemctl'', ''is-active'', ''postgresql'']
          then Inr (3, ''inactive'' @ [CHR 0x0A])
        else Inl (Exn FileNotFoundError ''No such file or directory'')),
      os_utcnow = (\<lambda>t. \<lparr>year = 2024, month = 1, day = 15, hour = 10, minute = 30, second = t mod 60,
                         microsecond = 0, tzinfo = None\<rparr>)\<rparr>"

section \<open>app\_monitor.py: the monitoring report\<close>

text \<open>
  \<open>create_service_status_objects\<close> reads the host name and the clock once, before the
  loop and outside any handler, and then builds one record per entry of the mapping; an
  entry whose record fails validation is logged and left out.
\<close>

fun objects_loop :: "iso_parser \<Rightarrow> string \<Rightarrow> string \<Rightarrow> string pydict \<Rightarrow> ServiceStatus list" where
  "objects_loop fromisoformat hostname ts [] = []"
| "objects_loop fromisoformat hostname ts ((name, status) # rest) =
     (case new_ServiceStatus fromisoformat (PStr name) (PStr status) (PStr hostname) (PStr ts) of
        Inr obj \<Rightarrow> obj # objects_loop fromisoformat hostname ts rest
      | Inl e \<Rightarrow> objects_loop fromisoformat hostname ts rest)"

definition create_service_status_objects ::
  "iso_parser \<Rightarrow> checker \<Rightarrow> string pydict \<Rightarrow> nat \<Rightarrow> (exn + ServiceStatus list) \<times> nat" where
  "create_service_status_objects fromisoformat sc statuses t =
     (case chk_hostname sc t of
        Inl e \<Rightarrow> (Inl e, Suc t)
      | Inr hostname \<Rightarrow>
          (case chk_timestamp sc (Suc t) of
             Inl e \<Rightarrow> (Inl e, Suc (Suc t))
           | Inr ts \<Rightarrow> (Inr (objects_loop fromisoformat hostname ts statuses), Suc (Suc t))))"

definition create_rbcapp1_status_object ::
  "iso_parser \<Rightarrow> checker \<Rightarrow> string \<Rightarrow> nat \<Rightarrow> (exn + ServiceStatus) \<times> nat" where
  "create_rbcapp1_status_object fromisoformat sc app_status t =
     (case chk_hostname sc t of
        Inl e \<Rightarrow> (Inl e, Suc t)
      | Inr hostname \<Rightarrow>
          (case chk_timestamp sc (Suc t) of
             Inl e \<Rightarrow> (Inl e, Suc (Suc t))
           | Inr ts \<Rightarrow>
               (new_ServiceStatus fromisoformat (PStr ''rbcapp1'') (PStr app_status)
                  (PStr hostname) (PStr ts), Suc (Suc t))))"

text \<open>
  The report is a dictionary with the keys \<open>service_statuses\<close>, \<open>app_status\<close>,
  \<open>service_objects\<close>, \<open>app_object\<close>, \<open>timestamp\<close> and, in the handler's report only,
  \<open>error\<close>.
\<close>

record report =
  report_service_statuses :: "string pydict"
  report_app_status :: string
  report_service_objects :: "ServiceStatus list"
  report_app_object :: ServiceStatus
  report_timestamp :: string
  report_error :: "string option"

text \<open>The body of the \<open>try\<close> block: the first exception raised in it ends it.\<close>

definition report_try :: "iso_parser \<Rightarrow> checker \<Rightarrow> nat \<Rightarrow> (exn + report) \<times> nat" where
  "report_try fromisoformat sc t =
     (case check_service_statuses sc None t of
        (Inl e, t1) \<Rightarrow> (Inl e, t1)
      | (Inr statuses, t1) \<Rightarrow>
          (let app_status = determine_app_status statuses in
           case create_service_status_objects fromisoformat sc statuses t1 of
             (Inl e, t2) \<Rightarrow> (Inl e, t2)
           | (Inr service_objects, t2) \<Rightarrow>
               (case create_rbcapp1_status_object fromisoformat sc app_status t2 of
                  (Inl e, t3) \<Rightarrow> (Inl e, t3)
                | (Inr app_object, t3) \<Rightarrow>
                    (case chk_timestamp sc t3 of
                       Inl e \<Rightarrow> (Inl e, Suc t3)
                     | Inr ts \<Rightarrow>
                         (Inr \<lparr>report_service_statuses = statuses,
                               report_app_status = app_status,
                               report_service_objects = service_objects,
                               report_app_object = app_object,
                               report_timestamp = ts,
                               report_error = None\<rparr>, Suc t3)))))"

text \<open>
  The \<open>except Exception\<close> handler builds the minimal report. It calls
  \<open>create_rbcapp1_status_object\<close> and \<open>get_current_timestamp\<close> again, outside any
  handler: what they raise leaves \<open>get_full_monitoring_report\<close>.
\<close>

definition report_except :: "iso_parser \<Rightarrow> checker \<Rightarrow> exn \<Rightarrow> nat \<Rightarrow> (exn + report) \<times> nat" where
  "report_except fromisoformat sc e t =
     (case create_rbcapp1_status_object fromisoformat sc ''DOWN'' t of
        (Inl e', t1) \<Rightarrow> (Inl e', t1)
      | (Inr app_object, t1) \<Rightarrow>
          (case chk_timestamp sc t1 of
             Inl e' \<Rightarrow> (Inl e', Suc t1)
           | Inr ts \<Rightarrow>
               (Inr \<lparr>report_service_statuses = [],
                     report_app_status = ''DOWN'',
                     report_service_objects = [],
                     report_app_object = app_object,
                     report_timestamp = ts,
                     report_error = Some (exn_str e)\<rparr>, Suc t1)))"

definition get_full_monitoring_report :: "iso_parser \<Rightarrow> checker \<Rightarrow> nat \<Rightarrow> (exn + report) \<times> nat" where
  "get_full_monitoring_report fromisoformat sc t =
     (case report_try fromisoformat sc t of
        (Inr rep, t') \<Rightarrow> (Inr rep, t')
      | (Inl e, t') \<Rightarrow> report_except fromisoformat sc e t')"

text \<open>
  The checker of the unit tests: every probe answers UP and the host is \<open>test-host\<close>;
  the clock answers \<open>ts\<close> at every call.
\<close>

definition mock_service_checker :: "string \<Rightarrow> checker" where
  "mock_service_checker ts =
     \<lparr>chk_status = (\<lambda>t name. Inr ''UP''),
      chk_hostname = (\<lambda>t. Inr ''test-host''),
      chk_timestamp = (\<lambda>t. Inr ts)\<rparr>"

section \<open>Properties\<close>

lemma on_run_error_down: "on_run_error e = ''DOWN''"
  by (cases e rule: on_run_error.cases) simp_all

lemma required_loop_up:
  "required_loop ss d = ''UP'' \<longleftrightarrow> (\<forall>s \<in> set ss. dict_get d s = Some ''UP'')"
  by (induction ss) (auto split: option.splits)

lemma required_loop_cases: "required_loop ss d = ''UP'' \<or> required_loop ss d = ''DOWN''"
  by (induction ss) (auto split: option.splits)

lemma required_loop_cong:
  "(\<And>s. s \<in> set ss \<Longrightarrow> dict_get d' s = dict_get d s) \<Longrightarrow> required_loop ss d' = required_loop ss d"
  by (induction ss) (auto split: option.splits)

text \<open>
  C1. \<open>determine_app_status\<close> returns UP exactly when every configured dependency
  (httpd, rabbitmq, postgresql) is present in the status map with value UP; in every
  other case (the map empty, a configured name absent, or mapped to another value) it
  returns DOWN; and two maps that agree on the configured names get the same verdict,
  so names outside the configured set have no effect.
\<close>

theorem determine_app_status_verdict:
  "(determine_app_status m = ''UP'' \<longleftrightarrow>
      dict_get m ''httpd'' = Some ''UP'' \<and> dict_get m ''rabbitmq'' = Some ''UP''
      \<and> dict_get m ''postgresql'' = Some ''UP'')
   \<and> (determine_app_status m = ''UP'' \<or> determine_app_status m = ''DOWN'')
   \<and> (determine_app_status [] = ''DOWN'')
   \<and> (\<forall>m'. (\<forall>s \<in> set REQUIRED_SERVICES. dict_get m' s = dict_get m s)
          \<longrightarrow> determine_app_status m' = determine_app_status m)"
proof -
  have up: "determine_app_status d = ''UP'' \<longleftrightarrow>
      dict_get d ''httpd'' = Some ''UP'' \<and> dict_get d ''rabbitmq'' = Some ''UP''
      \<and> dict_get d ''postgresql'' = Some ''UP''" for d :: "string pydict"
  proof (cases "d = []")
    case True
    then show ?thesis by (simp add: determine_app_status_def dict_get_def)
  next
    case False
    then have "determine_app_status d = required_loop REQUIRED_SERVICES d"
      by (simp add: determine_app_status_def)
    then show ?thesis
      by (simp add: required_loop_up REQUIRED_SERVICES_def del: required_loop.simps)
  qed
  have two: "determine_app_status d = ''UP'' \<or> determine_app_status d = ''DOWN''"
    for d :: "string pydict"
    using required_loop_cases [of REQUIRED_SERVICES d] by (simp add: determine_app_status_def)
  have agree: "determine_app_status m' = determine_app_status m"
    if h: "\<forall>s \<in> set REQUIRED_SERVICES. dict_get m' s = dict_get m s" for m'
  proof -
    from h have "determine_app_status m' = ''UP'' \<longleftrightarrow> determine_app_status m = ''UP''"
      by (simp add: up REQUIRED_SERVICES_def)
    with two [of m] two [of m'] show ?thesis by auto
  qed
  have empty: "determine_app_status ([] :: string pydict) = ''DOWN''"
    by (simp add: determine_app_status_def)
  from up [of m] two [of m] empty agree show ?thesis by blast
qed

theorem determine_app_status_verdict_witness:
  "determine_app_status [(''httpd'', ''UP''), (''rabbitmq'', ''UP''), (''postgresql'', ''UP''),
       (''redis'', ''DOWN'')] = ''UP''
   \<and> determine_app_status [(''httpd'', ''UP''), (''postgresql'', ''UP'')] = ''DOWN''
   \<and> determine_app_status [(''redis'', ''DOWN''), (''postgresql'', ''UP''), (''rabbitmq'', ''UP''),
       (''httpd'', ''UP'')] = ''UP''"
proof -
  let ?a = "[(''httpd'', ''UP''), (''rabbitmq'', ''UP''), (''postgresql'', ''UP''),
       (''redis'', ''DOWN'')]"
  let ?b = "[(''httpd'', ''UP''), (''postgresql'', ''UP'')]"
  let ?c = "[(''redis'', ''DOWN''), (''postgresql'', ''UP''), (''rabbitmq'', ''UP''),
       (''httpd'', ''UP'')]"
  have a: "determine_app_status ?a = ''UP''"
    using determine_app_status_verdict [of ?a, THEN conjunct1] by (simp add: dict_get_def)
  have "determine_app_status ?b \<noteq> ''UP''"
    using determine_app_status_verdict [of ?b, THEN conjunct1] by (simp add: dict_get_def)
  with determine_app_status_verdict [of ?b, THEN conjunct2, THEN conjunct1]
  have b: "determine_app_status ?b = ''DOWN''" by blast
  have agree: "\<forall>s \<in> set REQUIRED_SERVICES. dict_get ?c s = dict_get ?a s"
    by (simp add: REQUIRED_SERVICES_def dict_get_def)
  have "(\<forall>s \<in> set REQUIRED_SERVICES. dict_get ?c s = dict_get ?a s)
          \<longrightarrow> determine_app_status ?c = determine_app_status ?a"
    by (rule determine_app_status_verdict [of ?a, THEN conjunct2, THEN conjunct2,
          THEN conjunct2, THEN spec])
  from this agree have "determine_app_status ?c = determine_app_status ?a"
    by (rule mp)
  from this a have c: "determine_app_status ?c = ''UP''" by (rule trans)
  from a b c show ?thesis by blast
qed

text \<open>
  C6. For every non-empty name string, \<open>check_service_status\<close> returns UP exactly when
  the supervisor invocation completes with return code 0 and output equal to
  \<open>active\<close> after stripping surrounding whitespace; for every other outcome (another
  return code or output, a timeout, the binary missing, any other exception of the
  invocation) it returns DOWN, and it never raises.
\<close>

theorem check_service_status_up_iff:
  "name \<noteq> [] \<Longrightarrow>
     (check_service_status run (PStr name) = Inr ''UP'' \<longleftrightarrow>
        (\<exists>out. run [''systemctl'', ''is-active'', name] = Inr (0, out) \<and> strip out = ''active''))
     \<and> (check_service_status run (PStr name) \<noteq> Inr ''UP'' \<longrightarrow>
          check_service_status run (PStr name) = Inr ''DOWN'')
     \<and> (\<forall>e. run [''systemctl'', ''is-active'', name] = Inl e \<longrightarrow>
          check_service_status run (PStr name) = Inr ''DOWN'')"
  by (auto simp: on_run_error_down split: sum.splits)

theorem check_service_status_up_iff_witness:
  "''httpd'' \<noteq> []
   \<and> check_service_status (\<lambda>argv. Inr (0, ''active'' @ [CHR 0x0A])) (PStr ''httpd'') = Inr ''UP''
   \<and> check_service_status (\<lambda>argv. Inr (3, ''inactive'' @ [CHR 0x0A])) (PStr ''httpd'') = Inr ''DOWN''
   \<and> check_service_status (\<lambda>argv. Inl (Exn TimeoutExpired ''timed out'')) (PStr ''httpd'')
       = Inr ''DOWN''"
proof -
  have n: "''httpd'' \<noteq> []" by simp
  have s: "strip (''active'' @ [CHR 0x0A]) = ''active''"
    by (simp add: strip_def py_isspace_def)
  have a: "check_service_status (\<lambda>argv. Inr (0, ''active'' @ [CHR 0x0A])) (PStr ''httpd'') = Inr ''UP''"
    using check_service_status_up_iff [OF n, of "\<lambda>argv. Inr (0, ''active'' @ [CHR 0x0A])"] s
    by blast
  have b: "check_service_status (\<lambda>argv. Inr (3, ''inactive'' @ [CHR 0x0A])) (PStr ''httpd'') = Inr ''DOWN''"
    using check_service_status_up_iff [OF n, of "\<lambda>argv. Inr (3, ''inactive'' @ [CHR 0x0A])"]
    by simp
  have c: "check_service_status (\<lambda>argv. Inl (Exn TimeoutExpired ''timed out'')) (PStr ''httpd'')
       = Inr ''DOWN''"
    using check_service_status_up_iff [OF n, of "\<lambda>argv. Inl (Exn TimeoutExpired ''timed out'')"]
    by simp
  from n a b c show ?thesis by simp
qed

lemma nonempty_str_iff: "truthy v \<and> is_str v \<longleftrightarrow> (\<exists>s. v = PStr s \<and> s \<noteq> [])"
  by (cases v) auto

lemma validate_none_iff:
  "validate P name status host ts = None \<longleftrightarrow>
     (\<exists>n h t. name = PStr n \<and> n \<noteq> [] \<and> (status = PStr ''UP'' \<or> status = PStr ''DOWN'')
        \<and> host = PStr h \<and> h \<noteq> [] \<and> ts = PStr t \<and> t \<noteq> []
        \<and> (\<exists>dt. P (replace (CHR ''Z'') ''+00:00'' t) = Inr dt))"
proof -
  have n: "(\<not> truthy name \<or> \<not> is_str name) \<longleftrightarrow> \<not> (\<exists>s. name = PStr s \<and> s \<noteq> [])"
    using nonempty_str_iff [of name] by blast
  have h: "(\<not> truthy host \<or> \<not> is_str host) \<longleftrightarrow> \<not> (\<exists>s. host = PStr s \<and> s \<noteq> [])"
    using nonempty_str_iff [of host] by blast
  have t: "(\<not> truthy ts \<or> \<not> is_str ts) \<longleftrightarrow> \<not> (\<exists>s. ts = PStr s \<and> s \<noteq> [])"
    using nonempty_str_iff [of ts] by blast
  show ?thesis
    unfolding validate_def n h t
    by (auto split: sum.splits)
qed

lemma validate_error:
  assumes "validate P name status host ts = Some e"
  shows "(\<exists>msg. e = Exn ValueError msg)
         \<or> (\<exists>t. ts = PStr t \<and> P (replace (CHR ''Z'') ''+00:00'' t) = Inl e)"
proof (cases ts)
  case (PStr t)
  with assms show ?thesis
    by (auto simp: validate_def split: if_splits sum.splits)
next
  case PNone
  with assms show ?thesis by (auto simp: validate_def split: if_splits)
next
  case (PBool b)
  with assms show ?thesis by (auto simp: validate_def split: if_splits)
next
  case (PInt i)
  with assms show ?thesis by (auto simp: validate_def split: if_splits)
next
  case (PObj attrs)
  with assms show ?thesis by (auto simp: validate_def split: if_splits)
qed

text \<open>
  C3 (amended). Constructing a \<open>ServiceStatus\<close> succeeds exactly when the name, the
  host and the timestamp are non-empty strings, the status is exactly UP or DOWN, and
  the timestamp, with every Z replaced by \<open>+00:00\<close>, is accepted by
  \<open>datetime.fromisoformat\<close>, whatever that accepts: a date alone is enough. The record
  then holds the four given values. In every other case the constructor raises and no
  record exists; the exception is a \<open>ValueError\<close>, or the parser's own exception if
  that is of another class.
\<close>

theorem new_ServiceStatus_succeeds_iff:
  "(new_ServiceStatus P name status host ts = Inr r \<longleftrightarrow>
      (\<exists>n h t. name = PStr n \<and> n \<noteq> [] \<and> (status = PStr ''UP'' \<or> status = PStr ''DOWN'')
         \<and> host = PStr h \<and> h \<noteq> [] \<and> ts = PStr t \<and> t \<noteq> []
         \<and> (\<exists>dt. P (replace (CHR ''Z'') ''+00:00'' t) = Inr dt)
         \<and> r = \<lparr>service_name = n, service_status = the_str status, host_name = h,
                 timestamp = t\<rparr>))
   \<and> (\<forall>e. new_ServiceStatus P name status host ts = Inl e \<longrightarrow>
          (\<exists>msg. e = Exn ValueError msg)
          \<or> (\<exists>t. ts = PStr t \<and> P (replace (CHR ''Z'') ''+00:00'' t) = Inl e))"
proof (intro conjI allI impI)
  show "new_ServiceStatus P name status host ts = Inr r \<longleftrightarrow>
      (\<exists>n h t. name = PStr n \<and> n \<noteq> [] \<and> (status = PStr ''UP'' \<or> status = PStr ''DOWN'')
         \<and> host = PStr h \<and> h \<noteq> [] \<and> ts = PStr t \<and> t \<noteq> []
         \<and> (\<exists>dt. P (replace (CHR ''Z'') ''+00:00'' t) = Inr dt)
         \<and> r = \<lparr>service_name = n, service_status = the_str status, host_name = h,
                 timestamp = t\<rparr>)"
  proof (cases "validate P name status host ts")
    case None
    then show ?thesis
      using validate_none_iff [of P name status host ts]
      by (auto simp: new_ServiceStatus_def)
  next
    case (Some e)
    then show ?thesis
      using validate_none_iff [of P name status host ts]
      by (simp add: new_ServiceStatus_def) blast
  qed
next
  fix e assume "new_ServiceStatus P name status host ts = Inl e"
  then have "validate P name status host ts = Some e"
    by (simp add: new_ServiceStatus_def split: option.splits)
  then show "(\<exists>msg. e = Exn ValueError msg)
          \<or> (\<exists>t. ts = PStr t \<and> P (replace (CHR ''Z'') ''+00:00'' t) = Inl e)"
    by (rule validate_error)
qed

theorem new_ServiceStatus_succeeds_iff_witness:
  "new_ServiceStatus fromisoformat_examples (PStr ''httpd'') (PStr ''UP'') (PStr ''web01'')
       (PStr ''2024-01-15T10:30:00Z'')
     = Inr \<lparr>service_name = ''httpd'', service_status = ''UP'', host_name = ''web01'',
             timestamp = ''2024-01-15T10:30:00Z''\<rparr>
   \<and> (\<exists>msg. new_ServiceStatus fromisoformat_examples (PStr ''httpd'') (PStr ''MAYBE'')
          (PStr ''web01'') (PStr ''2024-01-15T10:30:00Z'') = Inl (Exn ValueError msg))"
proof -
  have "fromisoformat_examples (replace (CHR ''Z'') ''+00:00'' ''2024-01-15T10:30:00Z'')
      = Inr \<lparr>year = 2024, month = 1, day = 15, hour = 10, minute = 30, second = 0,
              microsecond = 0, tzinfo = Some 0\<rparr>"
    by code_simp
  then have p: "\<exists>dt. fromisoformat_examples
      (replace (CHR ''Z'') ''+00:00'' ''2024-01-15T10:30:00Z'') = Inr dt"
    by (rule exI)
  have a: "new_ServiceStatus fromisoformat_examples (PStr ''httpd'') (PStr ''UP'')
      (PStr ''web01'') (PStr ''2024-01-15T10:30:00Z'')
     = Inr \<lparr>service_name = ''httpd'', service_status = ''UP'', host_name = ''web01'',
             timestamp = ''2024-01-15T10:30:00Z''\<rparr>"
    using p new_ServiceStatus_succeeds_iff [THEN conjunct1, of fromisoformat_examples
        "PStr ''httpd''" "PStr ''UP''" "PStr ''web01''" "PStr ''2024-01-15T10:30:00Z''"
        "\<lparr>service_name = ''httpd'', service_status = ''UP'', host_name = ''web01'',
             timestamp = ''2024-01-15T10:30:00Z''\<rparr>"]
    by simp
  have "\<not> (\<exists>r. new_ServiceStatus fromisoformat_examples (PStr ''httpd'') (PStr ''MAYBE'')
          (PStr ''web01'') (PStr ''2024-01-15T10:30:00Z'') = Inr r)"
    using new_ServiceStatus_succeeds_iff [THEN conjunct1, of fromisoformat_examples
        "PStr ''httpd''" "PStr ''MAYBE''" "PStr ''web01''" "PStr ''2024-01-15T10:30:00Z''"]
    by simp
  then obtain e where e: "new_ServiceStatus fromisoformat_examples (PStr ''httpd'')
          (PStr ''MAYBE'') (PStr ''web01'') (PStr ''2024-01-15T10:30:00Z'') = Inl e"
    by (cases "new_ServiceStatus fromisoformat_examples (PStr ''httpd'') (PStr ''MAYBE'')
          (PStr ''web01'') (PStr ''2024-01-15T10:30:00Z'')") auto
  have "\<not> (\<exists>t. PStr ''2024-01-15T10:30:00Z'' = PStr t
        \<and> fromisoformat_examples (replace (CHR ''Z'') ''+00:00'' t) = Inl e)"
    using p by auto
  with e new_ServiceStatus_succeeds_iff [THEN conjunct2, of fromisoformat_examples
        "PStr ''httpd''" "PStr ''MAYBE''" "PStr ''web01''" "PStr ''2024-01-15T10:30:00Z''"]
  obtain msg where "e = Exn ValueError msg" by blast
  with e a show ?thesis by blast
qed

text \<open>
  C3 as stated requires a full date-time, a date together with a time of day. The
  timestamp \<open>2024-01-15\<close> has no time of day; \<open>datetime.fromisoformat\<close> returns midnight
  of that day for it, and the constructor builds the record.
\<close>

theorem new_ServiceStatus_date_only_counterexample:
  "new_ServiceStatus fromisoformat_examples (PStr ''httpd'') (PStr ''UP'') (PStr ''web01'')
       (PStr ''2024-01-15'')
     = Inr \<lparr>service_name = ''httpd'', service_status = ''UP'', host_name = ''web01'',
             timestamp = ''2024-01-15''\<rparr>
   \<and> fromisoformat_examples ''2024-01-15''
     = Inr \<lparr>year = 2024, month = 1, day = 15, hour = 0, minute = 0, second = 0,
             microsecond = 0, tzinfo = None\<rparr>
   \<and> \<not> spec_full_date_time ''2024-01-15''"
  by code_simp

lemma replace_single: "replace old [new] s = map (\<lambda>c. if c = old then new else c) s"
  by (induction s) (simp_all add: replace_def)

lemma safe_timestamp_map:
  "replace (CHR ''.'') ''-'' (replace (CHR '':'') ''-'' t)
     = map (\<lambda>c. if c = CHR '':'' \<or> c = CHR ''.'' then CHR ''-'' else c) t"
  by (simp add: replace_single)

lemma is_digit_digit_char: "n < 10 \<Longrightarrow> is_digit (digit_char n)"
  by (simp add: is_digit_def digit_char_def)

lemma digit_val_digit_char: "n < 10 \<Longrightarrow> digit_val (digit_char n) = n"
  by (simp add: digit_val_def digit_char_def)

lemma dec_digits: "list_all is_digit (dec n)"
proof (induction n rule: dec.induct)
  case (1 n)
  show ?case
  proof (cases "n < 10")
    case True
    then show ?thesis by (subst dec.simps) (simp add: is_digit_digit_char)
  next
    case False
    with 1 show ?thesis by (subst dec.simps) (simp add: is_digit_digit_char)
  qed
qed

lemma dec_nonempty: "dec n \<noteq> []"
  by (subst dec.simps) simp

lemma dec_value: "foldl (\<lambda>a c. 10 * a + digit_val c) 0 (dec n) = n"
proof (induction n rule: dec.induct)
  case (1 n)
  show ?case
  proof (cases "n < 10")
    case True
    then show ?thesis by (subst dec.simps) (simp add: digit_val_digit_char)
  next
    case False
    with 1 show ?thesis by (subst dec.simps) (simp add: digit_val_digit_char)
  qed
qed

lemma dec_length: "n < 10 ^ k \<Longrightarrow> 0 < k \<Longrightarrow> length (dec n) \<le> k"
proof (induction n arbitrary: k rule: dec.induct)
  case (1 n)
  show ?case
  proof (cases "n < 10")
    case True
    with 1 show ?thesis by (subst dec.simps) simp
  next
    case False
    obtain j where k: "k = Suc j" using 1(3) by (cases k) auto
    from False 1(2) k have j: "0 < j" by (cases j) auto
    from 1(2) k have "n div 10 < 10 ^ j" by (simp add: less_mult_imp_div_less mult.commute)
    with 1(1) [OF False this j] False k show ?thesis by (subst dec.simps) simp
  qed
qed

lemma zeros_value: "foldl (\<lambda>a c. 10 * a + digit_val c) 0 (replicate z (CHR ''0'')) = 0"
  by (induction z) (simp_all add: digit_val_def)

lemma pad_value: "foldl (\<lambda>a c. 10 * a + digit_val c) 0 (pad k n) = n"
  by (simp add: pad_def zeros_value dec_value)

lemma pad_inj:
  assumes "pad k n = pad k m"
  shows "n = m"
proof -
  have "n = foldl (\<lambda>a c. 10 * a + digit_val c) 0 (pad k n)"
    by (rule pad_value [symmetric])
  also have "\<dots> = foldl (\<lambda>a c. 10 * a + digit_val c) 0 (pad k m)"
    by (simp only: assms)
  also have "\<dots> = m" by (rule pad_value)
  finally show ?thesis .
qed

lemma zeros_digits: "list_all is_digit (replicate z (CHR ''0''))"
  by (induction z) (simp_all add: is_digit_def)

lemma pad_digits: "list_all is_digit (pad k n)"
  by (simp add: pad_def dec_digits zeros_digits)

lemma pad_length: "n < 10 ^ k \<Longrightarrow> 0 < k \<Longrightarrow> length (pad k n) = k"
  using dec_length [of n k] by (simp add: pad_def)

lemma safe_digits:
  "list_all is_digit s \<Longrightarrow> map (\<lambda>c. if c = CHR '':'' \<or> c = CHR ''.'' then CHR ''-'' else c) s = s"
  by (induction s) (auto simp: is_digit_def)

lemma safe_current_timestamp:
  "map (\<lambda>c. if c = CHR '':'' \<or> c = CHR ''.'' then CHR ''-'' else c) (get_current_timestamp d)
     = pad 4 (year d) @ ''-'' @ pad 2 (month d) @ ''-'' @ pad 2 (day d) @ ''T''
       @ pad 2 (hour d) @ ''-'' @ pad 2 (minute d) @ ''-'' @ pad 2 (second d)
       @ (if microsecond d \<noteq> 0 then ''-'' @ pad 6 (microsecond d) else []) @ ''Z''"
  by (simp add: get_current_timestamp_def isoformat_def safe_digits pad_digits)

lemma check_datetime_lengths:
  assumes "check_datetime d"
  shows "length (pad 4 (year d)) = 4" "length (pad 2 (month d)) = 2"
    "length (pad 2 (day d)) = 2" "length (pad 2 (hour d)) = 2"
    "length (pad 2 (minute d)) = 2" "length (pad 2 (second d)) = 2"
    "length (pad 6 (microsecond d)) = 6"
proof -
  from assms have y: "year d < 10 ^ 4" and m: "month d < 10 ^ 2" and h: "hour d < 10 ^ 2"
    and mi: "minute d < 10 ^ 2" and s: "second d < 10 ^ 2" and us: "microsecond d < 10 ^ 6"
    by (simp_all add: check_datetime_def check_date_fields_def check_time_fields_def)
  from assms have "day d \<le> days_in_month (year d) (month d)"
    by (simp add: check_datetime_def check_date_fields_def)
  also have "\<dots> \<le> 31" by (simp add: days_in_month_def)
  finally have dd: "day d < 10 ^ 2" by simp
  show "length (pad 4 (year d)) = 4" using y by (rule pad_length) simp
  show "length (pad 2 (month d)) = 2" using m by (rule pad_length) simp
  show "length (pad 2 (day d)) = 2" using dd by (rule pad_length) simp
  show "length (pad 2 (hour d)) = 2" using h by (rule pad_length) simp
  show "length (pad 2 (minute d)) = 2" using mi by (rule pad_length) simp
  show "length (pad 2 (second d)) = 2" using s by (rule pad_length) simp
  show "length (pad 6 (microsecond d)) = 6" using us by (rule pad_length) simp
qed

lemma safe_current_timestamp_inj:
  assumes v1: "check_datetime d1" and v2: "check_datetime d2"
    and eq: "map (\<lambda>c. if c = CHR '':'' \<or> c = CHR ''.'' then CHR ''-'' else c)
               (get_current_timestamp d1)
             = map (\<lambda>c. if c = CHR '':'' \<or> c = CHR ''.'' then CHR ''-'' else c)
               (get_current_timestamp d2)"
  shows "year d1 = year d2 \<and> month d1 = month d2 \<and> day d1 = day d2 \<and> hour d1 = hour d2
         \<and> minute d1 = minute d2 \<and> second d1 = second d2 \<and> microsecond d1 = microsecond d2"
proof -
  note l1 = check_datetime_lengths [OF v1] and l2 = check_datetime_lengths [OF v2]
  let ?t1 = "(if microsecond d1 \<noteq> 0 then ''-'' @ pad 6 (microsecond d1) else []) @ ''Z''"
  let ?t2 = "(if microsecond d2 \<noteq> 0 then ''-'' @ pad 6 (microsecond d2) else []) @ ''Z''"
  from eq have e: "pad 4 (year d1) @ ''-'' @ pad 2 (month d1) @ ''-'' @ pad 2 (day d1) @ ''T''
       @ pad 2 (hour d1) @ ''-'' @ pad 2 (minute d1) @ ''-'' @ pad 2 (second d1) @ ?t1
     = pad 4 (year d2) @ ''-'' @ pad 2 (month d2) @ ''-'' @ pad 2 (day d2) @ ''T''
       @ pad 2 (hour d2) @ ''-'' @ pad 2 (minute d2) @ ''-'' @ pad 2 (second d2) @ ?t2"
    by (simp only: safe_current_timestamp)
  from e l1 l2 have y: "pad 4 (year d1) = pad 4 (year d2)"
    and e1: "pad 2 (month d1) @ ''-'' @ pad 2 (day d1) @ ''T''
       @ pad 2 (hour d1) @ ''-'' @ pad 2 (minute d1) @ ''-'' @ pad 2 (second d1) @ ?t1
     = pad 2 (month d2) @ ''-'' @ pad 2 (day d2) @ ''T''
       @ pad 2 (hour d2) @ ''-'' @ pad 2 (minute d2) @ ''-'' @ pad 2 (second d2) @ ?t2"
    by (simp_all only: append_eq_append_conv append_Cons append_Nil list.inject simp_thms)
  from e1 l1 l2 have m: "pad 2 (month d1) = pad 2 (month d2)"
    and e2: "pad 2 (day d1) @ ''T''
       @ pad 2 (hour d1) @ ''-'' @ pad 2 (minute d1) @ ''-'' @ pad 2 (second d1) @ ?t1
     = pad 2 (day d2) @ ''T''
       @ pad 2 (hour d2) @ ''-'' @ pad 2 (minute d2) @ ''-'' @ pad 2 (second d2) @ ?t2"
    by (simp_all only: append_eq_append_conv append_Cons append_Nil list.inject simp_thms)
  from e2 l1 l2 have dd: "pad 2 (day d1) = pad 2 (day d2)"
    and e3: "pad 2 (hour d1) @ ''-'' @ pad 2 (minute d1) @ ''-'' @ pad 2 (second d1) @ ?t1
     = pad 2 (hour d2) @ ''-'' @ pad 2 (minute d2) @ ''-'' @ pad 2 (second d2) @ ?t2"
    by (simp_all only: append_eq_append_conv append_Cons append_Nil list.inject simp_thms)
  from e3 l1 l2 have h: "pad 2 (hour d1) = pad 2 (hour d2)"
    and e4: "pad 2 (minute d1) @ ''-'' @ pad 2 (second d1) @ ?t1
     = pad 2 (minute d2) @ ''-'' @ pad 2 (second d2) @ ?t2"
    by (simp_all only: append_eq_append_conv append_Cons append_Nil list.inject simp_thms)
  from e4 l1 l2 have mi: "pad 2 (minute d1) = pad 2 (minute d2)"
    and e5: "pad 2 (second d1) @ ?t1 = pad 2 (second d2) @ ?t2"
    by (simp_all only: append_eq_append_conv append_Cons append_Nil list.inject simp_thms)
  from e5 l1 l2 have s: "pad 2 (second d1) = pad 2 (second d2)" and e6: "?t1 = ?t2"
    by (simp_all only: append_eq_append_conv simp_thms)
  have us: "microsecond d1 = microsecond d2"
  proof (cases "microsecond d1 = 0")
    case True
    with e6 show ?thesis by (cases "microsecond d2 = 0") simp_all
  next
    case False
    with e6 have nz: "microsecond d2 \<noteq> 0" by (cases "microsecond d2 = 0") simp_all
    with False e6 have "pad 6 (microsecond d1) = pad 6 (microsecond d2)" by simp
    then show ?thesis by (rule pad_inj)
  qed
  from y m dd h mi s us show ?thesis by (simp add: pad_inj)
qed

lemma generate_json_filename_safe:
  "name \<noteq> [] \<Longrightarrow> generate_json_filename now (PStr name) (Some t)
     = Inr (name @ ''-status-''
            @ map (\<lambda>c. if c = CHR '':'' \<or> c = CHR ''.'' then CHR ''-'' else c) t @ ''.json'')"
  by (simp add: generate_json_filename_def safe_timestamp_map)

text \<open>
  C9 (amended). For a fixed name, the filename is injective over the timestamps that
  \<open>get_current_timestamp\<close> produces, \<open>YYYY-MM-DDTHH:MM:SS[.ffffff]Z\<close> for a valid naive
  clock reading: two clock readings that get the same filename are the same reading,
  so readings that differ in any field down to the microsecond never collide.
\<close>

theorem generate_json_filename_injective_on_clock:
  assumes "name \<noteq> []"
    and "check_datetime d1" and "check_datetime d2"
    and "tzinfo d1 = None" and "tzinfo d2 = None"
    and "generate_json_filename now (PStr name) (Some (get_current_timestamp d1))
         = generate_json_filename now (PStr name) (Some (get_current_timestamp d2))"
  shows "d1 = d2"
proof -
  from assms(1,6)
  have "map (\<lambda>c. if c = CHR '':'' \<or> c = CHR ''.'' then CHR ''-'' else c)
               (get_current_timestamp d1)
        = map (\<lambda>c. if c = CHR '':'' \<or> c = CHR ''.'' then CHR ''-'' else c)
               (get_current_timestamp d2)"
    by (simp add: generate_json_filename_safe)
  from safe_current_timestamp_inj [OF assms(2,3) this] assms(4,5)
  show ?thesis by (simp add: datetime.equality)
qed

theorem generate_json_filename_injective_on_clock_witness:
  "check_datetime \<lparr>year = 2024, month = 1, day = 15, hour = 10, minute = 30, second = 0,
      microsecond = 1, tzinfo = None\<rparr>
   \<and> check_datetime \<lparr>year = 2024, month = 1, day = 15, hour = 10, minute = 30, second = 0,
      microsecond = 2, tzinfo = None\<rparr>
   \<and> generate_json_filename (Inr []) (PStr ''httpd'')
        (Some (get_current_timestamp \<lparr>year = 2024, month = 1, day = 15, hour = 10,
           minute = 30, second = 0, microsecond = 1, tzinfo = None\<rparr>))
      \<noteq> generate_json_filename (Inr []) (PStr ''httpd'')
        (Some (get_current_timestamp \<lparr>year = 2024, month = 1, day = 15, hour = 10,
           minute = 30, second = 0, microsecond = 2, tzinfo = None\<rparr>))"
proof -
  let ?d1 = "\<lparr>year = 2024, month = 1, day = 15, hour = 10, minute = 30, second = 0,
      microsecond = 1, tzinfo = None\<rparr>"
  let ?d2 = "\<lparr>year = 2024, month = 1, day = 15, hour = 10, minute = 30, second = 0,
      microsecond = 2, tzinfo = None\<rparr>"
  have n: "''httpd'' \<noteq> []" by simp
  have v1: "check_datetime ?d1"
    by (simp add: check_datetime_def check_date_fields_def check_time_fields_def
        days_in_month_def)
  have v2: "check_datetime ?d2"
    by (simp add: check_datetime_def check_date_fields_def check_time_fields_def
        days_in_month_def)
  have t1: "tzinfo ?d1 = None" and t2: "tzinfo ?d2 = None" by simp_all
  have ne: "?d1 \<noteq> ?d2" by simp
  have "generate_json_filename (Inr []) (PStr ''httpd'') (Some (get_current_timestamp ?d1))
      \<noteq> generate_json_filename (Inr []) (PStr ''httpd'') (Some (get_current_timestamp ?d2))"
  proof
    assume "generate_json_filename (Inr []) (PStr ''httpd'') (Some (get_current_timestamp ?d1))
      = generate_json_filename (Inr []) (PStr ''httpd'') (Some (get_current_timestamp ?d2))"
    from generate_json_filename_injective_on_clock [OF n v1 v2 t1 t2 this] ne
    show False by (rule notE [rotated])
  qed
  with v1 v2 show ?thesis by (intro conjI)
qed

text \<open>
  C9 as stated ranges over all valid ISO date-time strings. The timestamps
  \<open>2024-01-15T10:30:07-05:00\<close> (second 7, offset minus five hours) and
  \<open>2024-01-15T10:30-07:05:00\<close> (second 0, offset minus seven hours five minutes) are
  both accepted by \<open>datetime.fromisoformat\<close> and so by record validation, differ in the
  seconds, and get the same filename.
\<close>

theorem generate_json_filename_collision_counterexample:
  "new_ServiceStatus fromisoformat_examples (PStr ''httpd'') (PStr ''UP'') (PStr ''web01'')
       (PStr ''2024-01-15T10:30:07-05:00'')
     = Inr \<lparr>service_name = ''httpd'', service_status = ''UP'', host_name = ''web01'',
             timestamp = ''2024-01-15T10:30:07-05:00''\<rparr>
   \<and> new_ServiceStatus fromisoformat_examples (PStr ''httpd'') (PStr ''UP'') (PStr ''web01'')
       (PStr ''2024-01-15T10:30-07:05:00'')
     = Inr \<lparr>service_name = ''httpd'', service_status = ''UP'', host_name = ''web01'',
             timestamp = ''2024-01-15T10:30-07:05:00''\<rparr>
   \<and> fromisoformat_examples ''2024-01-15T10:30:07-05:00''
     = Inr \<lparr>year = 2024, month = 1, day = 15, hour = 10, minute = 30, second = 7,
             microsecond = 0, tzinfo = Some (- 18000000000)\<rparr>
   \<and> fromisoformat_examples ''2024-01-15T10:30-07:05:00''
     = Inr \<lparr>year = 2024, month = 1, day = 15, hour = 10, minute = 30, second = 0,
             microsecond = 0, tzinfo = Some (- 25500000000)\<rparr>
   \<and> generate_json_filename (Inr []) (PStr ''httpd'') (Some ''2024-01-15T10:30:07-05:00'')
     = Inr ''httpd-status-2024-01-15T10-30-07-05-00.json''
   \<and> generate_json_filename (Inr []) (PStr ''httpd'') (Some ''2024-01-15T10:30-07:05:00'')
     = Inr ''httpd-status-2024-01-15T10-30-07-05-00.json''"
  by code_simp

lemma dict_get_set: "dict_get (dict_set d k v) k' = (if k' = k then Some v else dict_get d k')"
  by (induction d k v rule: dict_set.induct) (auto simp: dict_get_def)

lemma dict_keys_set: "set (dict_keys (dict_set d k v)) = insert k (set (dict_keys d))"
  by (induction d k v rule: dict_set.induct) (auto simp: dict_keys_def)

lemma dict_keys_distinct_set: "distinct (dict_keys d) \<Longrightarrow> distinct (dict_keys (dict_set d k v))"
proof (induction d k v rule: dict_set.induct)
  case (1 k v)
  then show ?case by (simp add: dict_keys_def)
next
  case (2 k' v' d k v)
  show ?case
  proof (cases "k' = k")
    case True
    with 2(2) show ?thesis by (simp add: dict_keys_def)
  next
    case False
    from 2(2) have "distinct (dict_keys d)" and "k' \<notin> set (dict_keys d)"
      by (simp_all add: dict_keys_def)
    with 2(1) [OF False] False dict_keys_set [of d k v] show ?thesis
      by (simp add: dict_keys_def)
  qed
qed

lemma dict_get_keys: "dict_get d k \<noteq> None \<longleftrightarrow> k \<in> set (dict_keys d)"
  by (simp add: dict_get_def dict_keys_def map_of_eq_None_iff)

lemma check_loop_step:
  "check_loop sc (service # rest) statuses t
     = check_loop sc rest (dict_set statuses service (probe_result sc t service)) (Suc t)"
  by (simp add: probe_result_def split: sum.splits)

lemma check_loop_tick: "snd (check_loop sc names d t) = t + length names"
  by (induction names arbitrary: d t) (simp_all split: sum.splits)

lemma check_loop_keys:
  "set (dict_keys (fst (check_loop sc names d t))) = set (dict_keys d) \<union> set names"
  by (induction names arbitrary: d t) (auto simp: dict_keys_set split: sum.splits)

lemma check_loop_distinct:
  "distinct (dict_keys d) \<Longrightarrow> distinct (dict_keys (fst (check_loop sc names d t)))"
  by (induction names arbitrary: d t) (auto simp: dict_keys_distinct_set split: sum.splits)

lemma check_loop_absent:
  "k \<notin> set names \<Longrightarrow> dict_get (fst (check_loop sc names d t)) k = dict_get d k"
  by (induction names arbitrary: d t) (auto simp: dict_get_set split: sum.splits)

lemma check_loop_last:
  "i < length names \<Longrightarrow> (\<forall>j. i < j \<and> j < length names \<longrightarrow> names ! j \<noteq> names ! i) \<Longrightarrow>
     dict_get (fst (check_loop sc names d t)) (names ! i)
       = Some (probe_result sc (t + i) (names ! i))"
proof (induction names arbitrary: d t i)
  case Nil
  then show ?case by simp
next
  case (Cons a names)
  show ?case
  proof (cases i)
    case 0
    from Cons.prems(2) 0 have "a \<notin> set names"
      by (auto simp: in_set_conv_nth)
    with 0 show ?thesis
      by (simp add: check_loop_step check_loop_absent dict_get_set del: check_loop.simps)
  next
    case (Suc i')
    with Cons.prems have i': "i' < length names" by simp
    have later: "\<forall>j. i' < j \<and> j < length names \<longrightarrow> names ! j \<noteq> names ! i'"
    proof (intro allI impI)
      fix j assume "i' < j \<and> j < length names"
      with Cons.prems(2) [rule_format, of "Suc j"] Suc show "names ! j \<noteq> names ! i'" by simp
    qed
    from Cons.IH [OF i' later] Suc show ?thesis
      by (simp add: check_loop_step del: check_loop.simps)
  qed
qed

lemma check_loop_values:
  assumes "\<forall>k n s. chk_status sc k n = Inr s \<longrightarrow> s = ''UP'' \<or> s = ''DOWN''"
    and "\<forall>k v. dict_get d k = Some v \<longrightarrow> v = ''UP'' \<or> v = ''DOWN''"
  shows "dict_get (fst (check_loop sc names d t)) k = Some v \<Longrightarrow> v = ''UP'' \<or> v = ''DOWN''"
  using assms(2)
proof (induction names arbitrary: d t)
  case Nil
  then show ?case by simp
next
  case (Cons a names)
  have p: "probe_result sc t a = ''UP'' \<or> probe_result sc t a = ''DOWN''"
    using assms(1) by (auto simp: probe_result_def split: sum.splits)
  have "\<forall>k v. dict_get (dict_set d a (probe_result sc t a)) k = Some v \<longrightarrow> v = ''UP'' \<or> v = ''DOWN''"
    using Cons.prems(2) p by (auto simp: dict_get_set)
  from Cons.IH [OF _ this] Cons.prems(1) show ?case
    by (simp only: check_loop_step)
qed

lemma check_service_status_values:
  "check_service_status r v = Inr s \<Longrightarrow> s = ''UP'' \<or> s = ''DOWN''"
  by (cases v) (auto simp: on_run_error_down split: if_splits sum.splits)

lemma ServiceChecker_contract:
  "\<forall>k n s. chk_status (ServiceChecker env) k n = Inr s \<longrightarrow> s = ''UP'' \<or> s = ''DOWN''"
proof (intro allI impI)
  fix k n s assume "chk_status (ServiceChecker env) k n = Inr s"
  then have "check_service_status (os_run env k) (PStr n) = Inr s"
    by (simp add: ServiceChecker_def)
  then show "s = ''UP'' \<or> s = ''DOWN''" by (rule check_service_status_values)
qed

text \<open>
  C2. \<open>check_service_statuses\<close> raises \<open>ValueError\<close> exactly when the given name list is
  empty. For a non-empty list it returns, with no exception escaping, a mapping whose
  keys are exactly the input names and, the probe returning only UP or DOWN (as
  \<open>ServiceChecker\<close> does), whose values are all UP or DOWN; a name for which the probe
  raises is mapped to DOWN and every other name to what the probe returned for it.
  The names are probed in order, one call each; for a name given several times the
  mapping keeps the result of its last call.
\<close>

theorem check_service_statuses_contract:
  "((\<exists>e t'. check_service_statuses sc (Some names) t = (Inl e, t')) \<longleftrightarrow> names = [])
    \<and> (names = [] \<longrightarrow> check_service_statuses sc (Some names) t
          = (Inl (Exn ValueError ''services list cannot be empty''), t))
    \<and> (names \<noteq> [] \<longrightarrow>
         (\<exists>m. check_service_statuses sc (Some names) t = (Inr m, t + length names)
            \<and> set (dict_keys m) = set names \<and> distinct (dict_keys m)
            \<and> ((\<forall>k n s. chk_status sc k n = Inr s \<longrightarrow> s = ''UP'' \<or> s = ''DOWN'') \<longrightarrow>
                 (\<forall>k v. dict_get m k = Some v \<longrightarrow> v = ''UP'' \<or> v = ''DOWN''))
            \<and> (\<forall>i < length names.
                  (\<forall>j. i < j \<and> j < length names \<longrightarrow> names ! j \<noteq> names ! i) \<longrightarrow>
                  dict_get m (names ! i) = Some (probe_result sc (t + i) (names ! i))
                  \<and> (\<forall>e. chk_status sc (t + i) (names ! i) = Inl e \<longrightarrow>
                        dict_get m (names ! i) = Some ''DOWN'')
                  \<and> (\<forall>s. chk_status sc (t + i) (names ! i) = Inr s \<longrightarrow>
                        dict_get m (names ! i) = Some s))))"
proof -
  let ?m = "fst (check_loop sc names [] t)"
  have res: "check_service_statuses sc (Some names) t = (Inr ?m, t + length names)"
    if "names \<noteq> []"
    using that check_loop_tick [of sc names "[]" t]
    by (cases "check_loop sc names [] t") (simp add: check_service_statuses_def)
  have empty: "check_service_statuses sc (Some []) t
      = (Inl (Exn ValueError ''services list cannot be empty''), t)"
    by (simp add: check_service_statuses_def)
  have keys: "set (dict_keys ?m) = set names"
    using check_loop_keys [of sc names "[]" t] by (simp add: dict_keys_def)
  have dist: "distinct (dict_keys ?m)"
    by (rule check_loop_distinct) (simp add: dict_keys_def)
  have vals: "(\<forall>k n s. chk_status sc k n = Inr s \<longrightarrow> s = ''UP'' \<or> s = ''DOWN'') \<longrightarrow>
      (\<forall>k v. dict_get ?m k = Some v \<longrightarrow> v = ''UP'' \<or> v = ''DOWN'')"
  proof (intro allI impI)
    assume assms: "\<forall>k n s. chk_status sc k n = Inr s \<longrightarrow> s = ''UP'' \<or> s = ''DOWN''"
    fix k v assume "dict_get ?m k = Some v"
    moreover have "\<forall>k v. dict_get ([] :: string pydict) k = Some v \<longrightarrow> v = ''UP'' \<or> v = ''DOWN''"
      by (simp add: dict_get_def)
    ultimately show "v = ''UP'' \<or> v = ''DOWN''"
      using check_loop_values [OF assms, of "[]" names t k v] by blast
  qed
  have last: "dict_get ?m (names ! i) = Some (probe_result sc (t + i) (names ! i))
      \<and> (\<forall>e. chk_status sc (t + i) (names ! i) = Inl e \<longrightarrow> dict_get ?m (names ! i) = Some ''DOWN'')
      \<and> (\<forall>s. chk_status sc (t + i) (names ! i) = Inr s \<longrightarrow> dict_get ?m (names ! i) = Some s)"
    if "i < length names" and "\<forall>j. i < j \<and> j < length names \<longrightarrow> names ! j \<noteq> names ! i" for i
    using check_loop_last [OF that, of sc "[]" t] by (simp add: probe_result_def)
  show ?thesis
  proof (intro conjI impI)
    show "(\<exists>e t'. check_service_statuses sc (Some names) t = (Inl e, t')) \<longleftrightarrow> names = []"
    proof
      assume ex: "\<exists>e t'. check_service_statuses sc (Some names) t = (Inl e, t')"
      show "names = []"
      proof (rule ccontr)
        assume "names \<noteq> []"
        from res [OF this] ex show False by simp
      qed
    next
      assume "names = []"
      with empty show "\<exists>e t'. check_service_statuses sc (Some names) t = (Inl e, t')"
        by blast
    qed
  next
    assume "names = []"
    with empty show "check_service_statuses sc (Some names) t
        = (Inl (Exn ValueError ''services list cannot be empty''), t)"
      by blast
  next
    assume ne: "names \<noteq> []"
    show "\<exists>m. check_service_statuses sc (Some names) t = (Inr m, t + length names)
            \<and> set (dict_keys m) = set names \<and> distinct (dict_keys m)
            \<and> ((\<forall>k n s. chk_status sc k n = Inr s \<longrightarrow> s = ''UP'' \<or> s = ''DOWN'') \<longrightarrow>
                 (\<forall>k v. dict_get m k = Some v \<longrightarrow> v = ''UP'' \<or> v = ''DOWN''))
            \<and> (\<forall>i < length names.
                  (\<forall>j. i < j \<and> j < length names \<longrightarrow> names ! j \<noteq> names ! i) \<longrightarrow>
                  dict_get m (names ! i) = Some (probe_result sc (t + i) (names ! i))
                  \<and> (\<forall>e. chk_status sc (t + i) (names ! i) = Inl e \<longrightarrow>
                        dict_get m (names ! i) = Some ''DOWN'')
                  \<and> (\<forall>s. chk_status sc (t + i) (names ! i) = Inr s \<longrightarrow>
                        dict_get m (names ! i) = Some s))"
    proof (rule exI [of _ ?m], intro conjI)
      show "check_service_statuses sc (Some names) t = (Inr ?m, t + length names)"
        by (rule res [OF ne])
      show "set (dict_keys ?m) = set names" by (rule keys)
      show "distinct (dict_keys ?m)" by (rule dist)
      show "(\<forall>k n s. chk_status sc k n = Inr s \<longrightarrow> s = ''UP'' \<or> s = ''DOWN'') \<longrightarrow>
          (\<forall>k v. dict_get ?m k = Some v \<longrightarrow> v = ''UP'' \<or> v = ''DOWN'')" by (rule vals)
      show "\<forall>i < length names.
          (\<forall>j. i < j \<and> j < length names \<longrightarrow> names ! j \<noteq> names ! i) \<longrightarrow>
          dict_get ?m (names ! i) = Some (probe_result sc (t + i) (names ! i))
          \<and> (\<forall>e. chk_status sc (t + i) (names ! i) = Inl e \<longrightarrow>
                dict_get ?m (names ! i) = Some ''DOWN'')
          \<and> (\<forall>s. chk_status sc (t + i) (names ! i) = Inr s \<longrightarrow>
                dict_get ?m (names ! i) = Some s)"
      proof (intro allI impI)
        fix i assume "i < length names"
          and "\<forall>j. i < j \<and> j < length names \<longrightarrow> names ! j \<noteq> names ! i"
        from last [OF this]
        show "dict_get ?m (names ! i) = Some (probe_result sc (t + i) (names ! i))
          \<and> (\<forall>e. chk_status sc (t + i) (names ! i) = Inl e \<longrightarrow>
                dict_get ?m (names ! i) = Some ''DOWN'')
          \<and> (\<forall>s. chk_status sc (t + i) (names ! i) = Inr s \<longrightarrow>
                dict_get ?m (names ! i) = Some s)" .
      qed
    qed
  qed
qed

theorem check_service_statuses_contract_witness:
  "[''httpd'', [], ''rabbitmq''] \<noteq> ([] :: string list)
   \<and> (\<exists>m. check_service_statuses (ServiceChecker example_os)
              (Some [''httpd'', [], ''rabbitmq'']) 0 = (Inr m, 3)
          \<and> set (dict_keys m) = {''httpd'', [], ''rabbitmq''}
          \<and> (\<forall>k v. dict_get m k = Some v \<longrightarrow> v = ''UP'' \<or> v = ''DOWN'')
          \<and> dict_get m ''httpd'' = Some ''UP''
          \<and> dict_get m [] = Some ''DOWN''
          \<and> dict_get m ''rabbitmq'' = Some ''DOWN'')"
proof -
  let ?sc = "ServiceChecker example_os"
  let ?names = "[''httpd'', [], ''rabbitmq'']"
  have ne: "?names \<noteq> []" by simp
  from check_service_statuses_contract [of ?sc ?names 0, THEN conjunct2, THEN conjunct2,
      THEN mp, OF ne]
  obtain m where res: "check_service_statuses ?sc (Some ?names) 0 = (Inr m, 0 + length ?names)"
    and keys: "set (dict_keys m) = set ?names"
    and vals: "(\<forall>k n s. chk_status ?sc k n = Inr s \<longrightarrow> s = ''UP'' \<or> s = ''DOWN'') \<longrightarrow>
        (\<forall>k v. dict_get m k = Some v \<longrightarrow> v = ''UP'' \<or> v = ''DOWN'')"
    and last: "\<forall>i < length ?names.
        (\<forall>j. i < j \<and> j < length ?names \<longrightarrow> ?names ! j \<noteq> ?names ! i) \<longrightarrow>
        dict_get m (?names ! i) = Some (probe_result ?sc (0 + i) (?names ! i))
        \<and> (\<forall>e. chk_status ?sc (0 + i) (?names ! i) = Inl e \<longrightarrow>
              dict_get m (?names ! i) = Some ''DOWN'')
        \<and> (\<forall>s. chk_status ?sc (0 + i) (?names ! i) = Inr s \<longrightarrow>
              dict_get m (?names ! i) = Some s)"
    by blast
  have later: "\<forall>j. i < j \<and> j < length ?names \<longrightarrow> ?names ! j \<noteq> ?names ! i"
    if "i < 3" for i
    using that by (auto simp: less_Suc_eq numeral_3_eq_3 nth_Cons')
  have p0: "chk_status ?sc 0 ''httpd'' = Inr ''UP''"
    by (simp add: ServiceChecker_def example_os_def strip_def py_isspace_def)
  have p1: "chk_status ?sc 1 [] = Inl (Exn ValueError ''service_name must be a non-empty string'')"
    by (simp add: ServiceChecker_def example_os_def)
  have p2: "chk_status ?sc (Suc (Suc 0)) ''rabbitmq'' = Inr ''DOWN''"
    by (simp add: ServiceChecker_def example_os_def on_run_error_down)
  from last [rule_format, of 0] later [of 0] p0 have g0: "dict_get m ''httpd'' = Some ''UP''"
    by (simp add: probe_result_def)
  from last [rule_format, of 1] later [of 1] p1 have g1: "dict_get m [] = Some ''DOWN''"
    by (simp add: probe_result_def)
  from last [rule_format, of 2] later [of 2] p2 have g2: "dict_get m ''rabbitmq'' = Some ''DOWN''"
    by (simp add: probe_result_def)
  from vals ServiceChecker_contract [of example_os]
  have v: "\<forall>k v. dict_get m k = Some v \<longrightarrow> v = ''UP'' \<or> v = ''DOWN''" by (rule mp)
  from res have res': "check_service_statuses ?sc (Some ?names) 0 = (Inr m, 3)" by simp
  from keys have keys': "set (dict_keys m) = {''httpd'', [], ''rabbitmq''}" by simp
  show ?thesis
    using ne res' keys' v g0 g1 g2 by (intro conjI exI [of _ m])
qed

lemma check_service_statuses_default:
  "check_service_statuses sc None t =
     (Inr [(''httpd'', probe_result sc t ''httpd''),
           (''rabbitmq'', probe_result sc (Suc t) ''rabbitmq''),
           (''postgresql'', probe_result sc (Suc (Suc t)) ''postgresql'')], Suc (Suc (Suc t)))"
  by (simp add: check_service_statuses_def REQUIRED_SERVICES_def check_loop_step
      del: check_loop.simps(2))





text \<open>
  C4. \<open>get_full_monitoring_report\<close> is meant never to raise: on an exception it returns
  the minimal report. Its handler, however, calls \<open>create_rbcapp1_status_object\<close> again,
  and that raises again when the cause persists. With the checker of the repository's
  own test, whose clock answers \<open>invalid-timestamp\<close>, and with the real checker on a
  host whose name is empty, the call raises \<open>ValueError\<close> and no report is returned.
\<close>

theorem get_full_monitoring_report_raises:
  "get_full_monitoring_report fromisoformat_examples (mock_service_checker ''invalid-timestamp'') 0
     = (Inl (Exn ValueError ''timestamp must be in ISO 8601 format''), 9)
   \<and> get_full_monitoring_report P (ServiceChecker (example_os\<lparr>os_gethostname := Inr []\<rparr>)) 0
     = (Inl (Exn ValueError ''host_name must be a non-empty string''), 9)"
proof
  show "get_full_monitoring_report fromisoformat_examples
      (mock_service_checker ''invalid-timestamp'') 0
     = (Inl (Exn ValueError ''timestamp must be in ISO 8601 format''), 9)"
    by code_simp
  have n: "new_ServiceStatus P (PStr name) (PStr status) (PStr []) (PStr ts)
      = Inl (Exn ValueError ''host_name must be a non-empty string'')"
    if "name \<noteq> []" and "status = ''UP'' \<or> status = ''DOWN''" for name status ts
    using that by (auto simp: new_ServiceStatus_def validate_def)
  have h: "chk_hostname (ServiceChecker (example_os\<lparr>os_gethostname := Inr []\<rparr>)) k = Inr []" for k
    by (simp add: ServiceChecker_def get_hostname_init_def example_os_def)
  have c: "chk_timestamp (ServiceChecker (example_os\<lparr>os_gethostname := Inr []\<rparr>)) k
      = Inr (get_current_timestamp (os_utcnow example_os k))" for k
    by (simp add: ServiceChecker_def)
  have d: "determine_app_status m = ''UP'' \<or> determine_app_status m = ''DOWN''" for m
    using required_loop_cases by (auto simp: determine_app_status_def)
  show "get_full_monitoring_report P (ServiceChecker (example_os\<lparr>os_gethostname := Inr []\<rparr>)) 0
     = (Inl (Exn ValueError ''host_name must be a non-empty string''), 9)"
    using d n
    by (simp add: get_full_monitoring_report_def report_try_def report_except_def
        check_service_statuses_default create_service_status_objects_def
        create_rbcapp1_status_object_def h c Let_def eval_nat_numeral)
qed




end
